theory Spec2Isabelle
  imports Main "HOL-Library.Sublist"
begin

section \<open>The firmware updater command line tool (tools/rsid-fw-update/main.cc)\<close>

text \<open>
  The theory embeds the functions of \<^verbatim>\<open>main.cc\<close>: the version-string parser, the
  command line parser, the liveness wait and \<^verbatim>\<open>main\<close> itself. A \<^verbatim>\<open>std::string\<close> is a
  \<open>string\<close> (a list of bytes). Everything \<^verbatim>\<open>main.cc\<close> calls but does not define (device
  discovery, the device controller, the \<^verbatim>\<open>FwUpdater\<close> methods, the host compatibility
  check) is a field of the record \<open>environment\<close>, so every theorem holds for whatever
  those collaborators answer.
\<close>

subsection \<open>Constants\<close>

definition SUCCESS_MAIN :: int where "SUCCESS_MAIN = 0"
definition FAILURE_MAIN :: int where "FAILURE_MAIN = 1"
definition MIN_WAIT_FOR_DEVICE :: int where "MIN_WAIT_FOR_DEVICE = 6"
definition MAX_WAIT_FOR_DEVICE :: int where "MAX_WAIT_FOR_DEVICE = 30"
definition OPFW :: string where "OPFW = ''OPFW''"
definition RECOG :: string where "RECOG = ''RECOG''"

subsection \<open>Library functions used by the source\<close>

text \<open>
  \<^verbatim>\<open>std::string::find(str)\<close>: the first position at which \<open>str\<close> occurs, \<open>None\<close> for
  \<^verbatim>\<open>npos\<close>. The empty string is found at position 0, also in the empty string.
\<close>

primrec string_find :: "string \<Rightarrow> string \<Rightarrow> nat option" where
  "string_find [] str = (if str = [] then Some 0 else None)"
| "string_find (c # s) str =
     (if prefix str (c # s) then Some 0 else map_option Suc (string_find s str))"

text \<open>
  \<^verbatim>\<open>std::getline(stream, line, delim)\<close> on the unread rest of a stream: at the end of
  the input nothing is extracted and the stream fails (\<open>None\<close>); otherwise the line is
  everything up to the first delimiter, which is consumed but not stored, or up to the
  end of the input when there is no delimiter.
\<close>

definition getline :: "string \<Rightarrow> char \<Rightarrow> (string \<times> string) option" where
  "getline stream delim =
     (if stream = [] then None
      else Some (takeWhile (\<lambda>c. c \<noteq> delim) stream,
                 drop 1 (dropWhile (\<lambda>c. c \<noteq> delim) stream)))"

text \<open>
  \<^verbatim>\<open>operator==\<close> on two \<^verbatim>\<open>std::string\<close>s: the sizes agree and so does every byte.
\<close>

fun string_eq :: "string \<Rightarrow> string \<Rightarrow> bool" where
  "string_eq [] [] = True"
| "string_eq (a # as) (b # bs) = (a = b \<and> string_eq as bs)"
| "string_eq _ _ = False"

text \<open>
  \<^verbatim>\<open>std::stoi(line)\<close> in the C locale: leading white space is skipped, an optional sign
  and then decimal digits are read, anything after them is ignored. \<open>None\<close> stands for
  the two exceptions: \<^verbatim>\<open>invalid_argument\<close> when there is no digit, \<^verbatim>\<open>out_of_range\<close> when
  the value does not fit a 32-bit \<^verbatim>\<open>int\<close>.
\<close>

definition isspace :: "char \<Rightarrow> bool" where
  "isspace c = (c \<in> set [CHR 0x20, CHR 0x09, CHR 0x0A, CHR 0x0B, CHR 0x0C, CHR 0x0D])"

definition isdigit :: "char \<Rightarrow> bool" where
  "isdigit c = (c \<in> set ''0123456789'')"

definition digits_value :: "string \<Rightarrow> int" where
  "digits_value ds = foldl (\<lambda>acc c. 10 * acc + (of_char c - 48)) 0 ds"

definition stoi :: "string \<Rightarrow> int option" where
  "stoi str =
     (let s1 = dropWhile isspace str;
          negative = (s1 \<noteq> [] \<and> hd s1 = CHR ''-'');
          s2 = (if s1 \<noteq> [] \<and> (hd s1 = CHR ''-'' \<or> hd s1 = CHR ''+'') then tl s1 else s1);
          ds = takeWhile isdigit s2;
          v = (if negative then - digits_value ds else digits_value ds)
      in if ds = [] then None
         else if v < - (2 ^ 31) \<or> 2 ^ 31 - 1 < v then None
         else Some v)"

subsection \<open>User interaction\<close>

text \<open>
  Standard input is the list of bytes still unread; every function that reads returns
  the rest. Once the input is exhausted every further read fails, the variable read into
  keeps its value, and both loops below spin for ever: that is the result \<open>None\<close>.
\<close>

text \<open>
  \<^verbatim>\<open>UserApproval\<close>: \<^verbatim>\<open>std::cin >> key\<close> until the key is \<^verbatim>\<open>'y'\<close> or \<^verbatim>\<open>'n'\<close>. The
  extraction skips white space; as white space is neither of the two keys, reading it as
  a key and going round the loop again comes to the same.
\<close>

fun UserApproval :: "string \<Rightarrow> (bool \<times> string) option" where
  "UserApproval [] = None"
| "UserApproval (key # rest) =
     (if key \<noteq> CHR ''y'' \<and> key \<noteq> CHR ''n'' then UserApproval rest
      else Some (key = CHR ''y'', rest))"

text \<open>
  \<^verbatim>\<open>UserDeviceSelection\<close>: reads lines until one parses to an index between 1 and the
  number of devices, and returns that index less one. The argument \<open>n\<close> is
  \<^verbatim>\<open>devices.size()\<close>; the list that is printed first does not influence the result.
\<close>

function UserDeviceSelection :: "nat \<Rightarrow> string \<Rightarrow> (int \<times> string) option" where
  "UserDeviceSelection n input =
     (case getline input CHR 0x0A of
        None \<Rightarrow> None
      | Some (line, rest) \<Rightarrow>
          (let device_index = (case stoi line of Some v \<Rightarrow> v | None \<Rightarrow> - 1)
           in if device_index < 1 \<or> device_index > int n
              then UserDeviceSelection n rest
              else Some (device_index - 1, rest)))"
  by pat_completeness auto
termination
  apply (relation "measure (\<lambda>(n, input). length input)")
   apply (auto simp: getline_def split: if_splits)
  by (metis diff_less le_imp_less_Suc length_dropWhile_le length_greater_0_conv less_Suc_eq
      less_imp_diff_less)+

subsection \<open>Version strings\<close>

text \<open>
  \<^verbatim>\<open>ExtractModuleFromVersion\<close>: the second argument is the unread rest of
  \<^verbatim>\<open>version_stream\<close>, which starts as \<^verbatim>\<open>full_version\<close>. When the section has no colon,
  \<^verbatim>\<open>pos\<close> is \<^verbatim>\<open>npos\<close> and \<^verbatim>\<open>pos + 1\<close> wraps around to 0. When it has one,
  \<^verbatim>\<open>pos + 1\<close> is at most the size of the section, so \<^verbatim>\<open>substr\<close> does not throw.
\<close>

function ExtractModuleFromVersion :: "string \<Rightarrow> string \<Rightarrow> string" where
  "ExtractModuleFromVersion module_name version_stream =
     (case getline version_stream CHR ''|'' of
        None \<Rightarrow> ''Unknown''
      | Some (sect, rest) \<Rightarrow>
          if string_find sect module_name \<noteq> None
          then (case string_find sect '':'' of
                  None \<Rightarrow> drop 0 sect
                | Some pos \<Rightarrow> drop (pos + 1) sect)
          else ExtractModuleFromVersion module_name rest)"
  by pat_completeness auto
termination
  apply (relation "measure (\<lambda>(module_name, s). length s)")
   apply (auto simp: getline_def split: if_splits)
  by (metis diff_less le_imp_less_Suc length_dropWhile_le length_greater_0_conv less_Suc_eq
      less_imp_diff_less)+

definition ParseFirmwareVersion :: "string \<Rightarrow> string" where
  "ParseFirmwareVersion full_version = ExtractModuleFromVersion ''OPFW:'' full_version"

definition ParseRecognitionVersion :: "string \<Rightarrow> string" where
  "ParseRecognitionVersion full_version = ExtractModuleFromVersion ''RECOG:'' full_version"

subsection \<open>Command line arguments\<close>

record CommandLineArgs =
  is_valid :: bool
  force_version :: bool
  force_full :: bool
  is_interactive :: bool
  auto_approve :: bool
  fw_file :: string
  serial_port :: string

text \<open>The member initialisers of \<^verbatim>\<open>struct CommandLineArgs\<close>.\<close>

definition CommandLineArgs_init :: CommandLineArgs where
  "CommandLineArgs_init =
     \<lparr>is_valid = False, force_version = False, force_full = False, is_interactive = False,
      auto_approve = False, fw_file = [], serial_port = []\<rparr>"

text \<open>
  The \<^verbatim>\<open>for\<close> loop of \<^verbatim>\<open>ParseCommandLineArgs\<close> over \<^verbatim>\<open>argv[i], ..., argv[argc - 1]\<close>.
  After \<^verbatim>\<open>--file\<close> and \<^verbatim>\<open>--port\<close> the next argument, when there is one, is taken as
  the value whatever it is (\<^verbatim>\<open>argv[++i]\<close>) and is not looked at again; an argument that
  is none of the six options is skipped.
\<close>

fun ParseCommandLineArgs_loop :: "string list \<Rightarrow> CommandLineArgs \<Rightarrow> CommandLineArgs" where
  "ParseCommandLineArgs_loop [] args = args"
| "ParseCommandLineArgs_loop (a # rest) args =
     (if a = ''--file'' then
        (case rest of
           [] \<Rightarrow> args
         | v # rest' \<Rightarrow> ParseCommandLineArgs_loop rest' (args\<lparr>fw_file := v\<rparr>))
      else if a = ''--port'' then
        (case rest of
           [] \<Rightarrow> args
         | v # rest' \<Rightarrow> ParseCommandLineArgs_loop rest' (args\<lparr>serial_port := v\<rparr>))
      else if a = ''--force-full'' then
        ParseCommandLineArgs_loop rest (args\<lparr>force_full := True\<rparr>)
      else if a = ''--force-version'' then
        ParseCommandLineArgs_loop rest (args\<lparr>force_version := True\<rparr>)
      else if a = ''--interactive'' then
        ParseCommandLineArgs_loop rest (args\<lparr>is_interactive := True\<rparr>)
      else if a = ''--auto-approve'' then
        ParseCommandLineArgs_loop rest (args\<lparr>auto_approve := True\<rparr>)
      else ParseCommandLineArgs_loop rest args)"

text \<open>\<^verbatim>\<open>ParseCommandLineArgs(argc, argv)\<close>, with \<^verbatim>\<open>argc\<close> the length of the list.\<close>

definition ParseCommandLineArgs :: "string list \<Rightarrow> CommandLineArgs" where
  "ParseCommandLineArgs argv =
     (if length argv < 2 then CommandLineArgs_init
      else
        (let args = ParseCommandLineArgs_loop (drop 1 argv) CommandLineArgs_init
         in if fw_file args = [] then args
            else if is_interactive args \<and> auto_approve args then args
            else args\<lparr>is_valid := True\<rparr>))"

subsection \<open>The collaborators of main.cc\<close>

text \<open>
  Modelled from the spec: the status value that a call returns, \<^verbatim>\<open>RealSenseID::Status\<close>,
  declared in \<^verbatim>\<open>Status.h\<close>, which is not among the sources. The updater only tests
  a status against \<^verbatim>\<open>Status::Ok\<close>, so every other enumerator is \<open>NotOk\<close> with its
  number.
\<close>

datatype Status = Ok | NotOk nat

text \<open>
  \<^verbatim>\<open>FwUpdater::Settings\<close> (FwUpdater.h), without the Android block. The two fields are
  \<^verbatim>\<open>port\<close> and \<^verbatim>\<open>force_full\<close>; they carry a prefix here because \<^verbatim>\<open>force_full\<close> is
  a field of \<^verbatim>\<open>CommandLineArgs\<close> as well.
\<close>

record Settings =
  settings_port :: string
  settings_force_full :: bool

text \<open>
  What the outside world answers during one run of the program: the command line, the
  bytes on standard input, the serial ports \<^verbatim>\<open>DiscoverDevices\<close> reports, what the device
  on a port answers to the two queries of \<^verbatim>\<open>QueryDeviceMetadata\<close> and to a ping sent
  after so many seconds of waiting, and the results of the \<^verbatim>\<open>FwUpdater\<close> methods and of
  \<^verbatim>\<open>IsFwCompatibleWithHost\<close>. \<^verbatim>\<open>ExtractFwInformation\<close> yields \<open>None\<close> when it returns
  false, otherwise the firmware version, the recognition version and the module names.
\<close>

record environment =
  argv :: "string list"
  stdin :: string
  DiscoverDevices :: "string list"
  QueryFirmwareVersion :: "string \<Rightarrow> string"
  QuerySerialNumber :: "string \<Rightarrow> string"
  Ping :: "string \<Rightarrow> int \<Rightarrow> Status"
  ExtractFwInformation :: "string \<Rightarrow> (string \<times> string \<times> string list) option"
  IsEncryptionSupported :: "string \<Rightarrow> string \<Rightarrow> bool"
  IsFwCompatibleWithHost :: "string \<Rightarrow> bool"
  UpdateModules :: "Settings \<Rightarrow> string \<Rightarrow> string list \<Rightarrow> Status"

subsection \<open>Device metadata and liveness\<close>

record DeviceMetadata =
  serial_number :: string
  fw_version :: string
  recognition_version :: string

text \<open>
  Modelled from the spec: the description of a detected device,
  \<^verbatim>\<open>RealSenseID::DeviceInfo\<close>, declared in \<^verbatim>\<open>DiscoverDevices.h\<close>, which is not among
  the sources. The specification knows a serial configuration as an opaque port
  identifier string, and the updater uses the \<^verbatim>\<open>serialPort\<close> of a device only.
\<close>

record DeviceInfo =
  serialPort :: string

record FullDeviceInfo =
  metadata :: DeviceMetadata
  config :: DeviceInfo

definition QueryDeviceMetadata :: "environment \<Rightarrow> string \<Rightarrow> DeviceMetadata" where
  "QueryDeviceMetadata e serial_config =
     (let m0 = \<lparr>serial_number = ''Unknown'', fw_version = ''Unknown'',
                recognition_version = ''Unknown''\<rparr>;
          full_version = QueryFirmwareVersion e serial_config;
          m1 = (if full_version \<noteq> []
                then m0\<lparr>fw_version := ParseFirmwareVersion full_version,
                        recognition_version := ParseRecognitionVersion full_version\<rparr>
                else m0);
          serial = QuerySerialNumber e serial_config
      in if serial \<noteq> [] then m1\<lparr>serial_number := serial\<rparr> else m1)"

text \<open>
  \<^verbatim>\<open>IsDeviceAlive\<close>, called when the program has slept \<open>waited\<close> seconds in
  \<^verbatim>\<open>WaitForDevice\<close>.
\<close>

definition IsDeviceAlive :: "environment \<Rightarrow> string \<Rightarrow> int \<Rightarrow> bool" where
  "IsDeviceAlive e serial_config waited = (Ping e serial_config waited = Ok)"

text \<open>
  The \<^verbatim>\<open>while\<close> loop of \<^verbatim>\<open>WaitForDevice\<close>. Time is what the source counts: each round
  sleeps one second and adds one to \<^verbatim>\<open>waitCounter\<close>, and the time a ping itself takes is
  not counted. The loop returns the flag together with the final \<^verbatim>\<open>waitCounter\<close>, the
  number of seconds slept when the minimum wait is not negative.
\<close>

function WaitForDevice_loop :: "environment \<Rightarrow> string \<Rightarrow> int \<Rightarrow> bool \<Rightarrow> int \<Rightarrow> bool \<times> int" where
  "WaitForDevice_loop e port max_wait_seconds isDeviceAlive waitCounter =
     (if \<not> isDeviceAlive \<and> waitCounter < max_wait_seconds
      then WaitForDevice_loop e port max_wait_seconds
             (IsDeviceAlive e port (waitCounter + 1)) (waitCounter + 1)
      else (isDeviceAlive, waitCounter))"
  by pat_completeness auto
termination
  by (relation "measure (\<lambda>(e, port, max_wait_seconds, isDeviceAlive, waitCounter).
                   nat (max_wait_seconds - waitCounter))") auto

definition WaitForDevice :: "environment \<Rightarrow> int \<Rightarrow> int \<Rightarrow> string \<Rightarrow> bool" where
  "WaitForDevice e min_wait_seconds max_wait_seconds port =
     fst (WaitForDevice_loop e port max_wait_seconds False min_wait_seconds)"

text \<open>The value of \<^verbatim>\<open>waitCounter\<close> when \<^verbatim>\<open>WaitForDevice\<close> returns.\<close>

definition WaitForDevice_seconds :: "environment \<Rightarrow> int \<Rightarrow> int \<Rightarrow> string \<Rightarrow> int" where
  "WaitForDevice_seconds e min_wait_seconds max_wait_seconds port =
     snd (WaitForDevice_loop e port max_wait_seconds False min_wait_seconds)"

subsection \<open>The program\<close>

text \<open>
  What a run does that can be observed from outside, in the order in which it happens:
  the calls that reach a device or read the firmware file, the summary printed for the
  user, and the answers to the two questions. The summary carries the selected device,
  the two host compatibility verdicts (current and new firmware), and the firmware and
  recognition versions of the new image.
\<close>

datatype event =
    Ev_DiscoverDevices
  | Ev_QueryDeviceMetadata string
  | Ev_ExtractFwInformation string
  | Ev_IsEncryptionSupported string string
  | Ev_Summary FullDeviceInfo bool bool string string
  | Ev_ProceedAnswer bool
  | Ev_ClearDatabaseAnswer bool
  | Ev_UpdateModules Settings string "string list"

text \<open>
  The result of a run: its events and the value \<^verbatim>\<open>main\<close> returns, \<open>None\<close> when it never
  returns because a question is never answered.
\<close>

record outcome =
  trace :: "event list"
  exit_code :: "int option"

text \<open>
  Database compatibility as \<^verbatim>\<open>main\<close> computes it:
  \<^verbatim>\<open>current_recognition_version == new_recognition_version\<close>.
\<close>

definition is_database_compatible :: "string \<Rightarrow> string \<Rightarrow> bool" where
  "is_database_compatible current_recognition_version new_recognition_version =
     string_eq current_recognition_version new_recognition_version"

text \<open>
  \<^verbatim>\<open>main\<close> is embedded in four parts that follow the source from top to bottom; each
  part returns the events and the exit code of the rest of the run, and the part before
  puts its own events in front with \<open>after\<close>. The progress handler only prints and is left
  out, and so is the two-step update that is commented out in the source.
\<close>

definition after :: "event list \<Rightarrow> outcome \<Rightarrow> outcome" where
  "after t r = r\<lparr>trace := t @ trace r\<rparr>"

text \<open>
  Lines 382 to 424: the recognition module is taken off the list when it is not to be
  updated (\<^verbatim>\<open>remove_if\<close> and \<^verbatim>\<open>erase\<close>), the settings are filled in, the modules are
  flashed and the status decides the exit code.
\<close>

definition main_flash ::
  "environment \<Rightarrow> CommandLineArgs \<Rightarrow> FullDeviceInfo \<Rightarrow> string list \<Rightarrow> bool \<Rightarrow> outcome" where
  "main_flash e args selected_device moduleNames update_recognition =
     (let moduleNames' =
            (if \<not> update_recognition
             then filter (\<lambda>moduleName. \<not> string_eq moduleName RECOG) moduleNames
             else moduleNames);
          settings = \<lparr>settings_port = serialPort (config selected_device),
                      settings_force_full = force_full args\<rparr>;
          status = UpdateModules e settings (fw_file args) moduleNames';
          success = (status = Ok)
      in \<lparr>trace = [Ev_UpdateModules settings (fw_file args) moduleNames'],
          exit_code = Some (if success then SUCCESS_MAIN else FAILURE_MAIN)\<rparr>)"

text \<open>
  Lines 333 to 380: the compatibility verdicts, the summary, the question whether to
  proceed (interactive runs only), the version gate, and the question whether to clear
  the faceprints database. \<^verbatim>\<open>update_recognition\<close> starts as
  \<^verbatim>\<open>is_database_compatible || args.auto_approve\<close> and is replaced by the user's answer
  when the database is incompatible and \<^verbatim>\<open>--auto-approve\<close> was not given.
\<close>

definition main_negotiate ::
  "environment \<Rightarrow> CommandLineArgs \<Rightarrow> FullDeviceInfo \<Rightarrow> string \<Rightarrow> string \<Rightarrow> string list
     \<Rightarrow> string \<Rightarrow> outcome" where
  "main_negotiate e args selected_device new_fw_version new_recognition_version moduleNames in1 =
     (let current_fw_version = fw_version (metadata selected_device);
          current_compatible = IsFwCompatibleWithHost e current_fw_version;
          new_compatible = IsFwCompatibleWithHost e new_fw_version;
          current_recognition_version = recognition_version (metadata selected_device);
          database_compatible =
            is_database_compatible current_recognition_version new_recognition_version;
          summary = Ev_Summary selected_device current_compatible new_compatible
                      new_fw_version new_recognition_version
      in
      case (if is_interactive args then UserApproval in1 else Some (True, in1)) of
        None \<Rightarrow> \<lparr>trace = [summary], exit_code = None\<rparr>
      | Some (user_agreed, in2) \<Rightarrow>
          let t = (if is_interactive args then [summary, Ev_ProceedAnswer user_agreed]
                   else [summary])
          in
          if \<not> user_agreed then \<lparr>trace = t, exit_code = Some FAILURE_MAIN\<rparr>
          else if \<not> new_compatible \<and> \<not> force_version args
          then \<lparr>trace = t, exit_code = Some FAILURE_MAIN\<rparr>
          else
            case (if \<not> database_compatible \<and> \<not> auto_approve args then UserApproval in2
                  else Some (database_compatible \<or> auto_approve args, in2)) of
              None \<Rightarrow> \<lparr>trace = t, exit_code = None\<rparr>
            | Some (update_recognition, in3) \<Rightarrow>
                after (if \<not> database_compatible \<and> \<not> auto_approve args
                       then t @ [Ev_ClearDatabaseAnswer update_recognition] else t)
                  (main_flash e args selected_device moduleNames update_recognition))"

text \<open>
  Lines 311 to 331: the firmware file is read and the encryption is checked against the
  serial number of the selected device.
\<close>

definition main_validate ::
  "environment \<Rightarrow> CommandLineArgs \<Rightarrow> FullDeviceInfo \<Rightarrow> string \<Rightarrow> outcome" where
  "main_validate e args selected_device in1 =
     (let bin_path = fw_file args in
      case ExtractFwInformation e bin_path of
        None \<Rightarrow> \<lparr>trace = [Ev_ExtractFwInformation bin_path], exit_code = Some FAILURE_MAIN\<rparr>
      | Some (new_fw_version, new_recognition_version, moduleNames) \<Rightarrow>
          if \<not> IsEncryptionSupported e bin_path (serial_number (metadata selected_device))
          then \<lparr>trace = [Ev_ExtractFwInformation bin_path,
                          Ev_IsEncryptionSupported bin_path
                            (serial_number (metadata selected_device))],
                exit_code = Some FAILURE_MAIN\<rparr>
          else
            after [Ev_ExtractFwInformation bin_path,
                   Ev_IsEncryptionSupported bin_path (serial_number (metadata selected_device))]
              (main_negotiate e args selected_device new_fw_version new_recognition_version
                 moduleNames in1))"

text \<open>
  Lines 263 to 309, and the whole program. In the manual branch \<^verbatim>\<open>strncpy\<close> copies the
  port given on the command line into \<^verbatim>\<open>DeviceInfo::serialPort\<close>; the port is taken to
  fit that buffer. The index that the device selection returns is within the list, so
  \<^verbatim>\<open>devices_info.at(id)\<close> does not throw.
\<close>

definition main :: "environment \<Rightarrow> outcome" where
  "main e =
     (let args = ParseCommandLineArgs (argv e) in
      if \<not> is_valid args then \<lparr>trace = [], exit_code = Some FAILURE_MAIN\<rparr>
      else
        let auto_detect = (serial_port args = []);
            devices_info =
              (if auto_detect
               then map (\<lambda>detected_device.
                          \<lparr>metadata = QueryDeviceMetadata e detected_device,
                           config = \<lparr>serialPort = detected_device\<rparr>\<rparr>) (DiscoverDevices e)
               else [\<lparr>metadata = QueryDeviceMetadata e (serial_port args),
                      config = \<lparr>serialPort = serial_port args\<rparr>\<rparr>]);
            t = (if auto_detect
                 then Ev_DiscoverDevices # map Ev_QueryDeviceMetadata (DiscoverDevices e)
                 else [Ev_QueryDeviceMetadata (serial_port args)])
        in
        if devices_info = [] then \<lparr>trace = t, exit_code = Some FAILURE_MAIN\<rparr>
        else
          case (if length devices_info = 1 then Some (0, stdin e)
                else UserDeviceSelection (length devices_info) (stdin e)) of
            None \<Rightarrow> \<lparr>trace = t, exit_code = None\<rparr>
          | Some (device_id, in1) \<Rightarrow>
              after t (main_validate e args (devices_info ! nat device_id) in1))"

declare ExtractModuleFromVersion.simps [simp del]
declare UserDeviceSelection.simps [simp del]
declare WaitForDevice_loop.simps [simp del]

section \<open>Notions used to state the properties\<close>

subsection \<open>Sections and tokens of a composite version string\<close>

text \<open>
  The sections of a string are its pieces between the pipes, from left to right. The
  empty string has no section, and a pipe at the very end does not open a further, empty
  section.
\<close>

fun pipe_sections :: "string \<Rightarrow> string list" where
  "pipe_sections [] = []"
| "pipe_sections (c # cs) =
     (if c = CHR ''|'' then [] # pipe_sections cs
      else (case pipe_sections cs of [] \<Rightarrow> [[c]] | x # xs \<Rightarrow> (c # x) # xs))"

text \<open>Sections put together again, with a pipe between neighbours.\<close>

fun join_pipe :: "string list \<Rightarrow> string" where
  "join_pipe [] = []"
| "join_pipe [s] = s"
| "join_pipe (s # t # ts) = s @ CHR ''|'' # join_pipe (t # ts)"

text \<open>
  A token is a pair of a module name and a version, written \<^verbatim>\<open>NAME:VERSION\<close>; the
  composite version string of a list of tokens is their join.
\<close>

definition token :: "string \<times> string \<Rightarrow> string" where
  "token nv = fst nv @ CHR '':'' # snd nv"

definition composite :: "(string \<times> string) list \<Rightarrow> string" where
  "composite ts = join_pipe (map token ts)"

text \<open>Names and versions that contain neither a pipe nor a colon.\<close>

definition plain_token :: "string \<times> string \<Rightarrow> bool" where
  "plain_token nv =
     (CHR ''|'' \<notin> set (fst nv) \<and> CHR '':'' \<notin> set (fst nv) \<and>
      CHR ''|'' \<notin> set (snd nv) \<and> CHR '':'' \<notin> set (snd nv))"

subsection \<open>Command lines as lists of options\<close>

text \<open>
  The options a command line is made of: \<^verbatim>\<open>--file\<close> and \<^verbatim>\<open>--port\<close> with the argument
  that follows them, the four flags, and any other argument. \<open>render_options\<close> writes a
  list of options as the arguments after the program name. A command line may end in a
  \<^verbatim>\<open>--file\<close> or \<^verbatim>\<open>--port\<close> that nothing follows, which is no option.
\<close>

datatype cli_option =
    File string | Port string | ForceFull | ForceVersion | Interactive | AutoApprove
  | Other string

definition option_names :: "string list" where
  "option_names =
     [''--file'', ''--port'', ''--force-full'', ''--force-version'', ''--interactive'',
      ''--auto-approve'']"

fun render_option :: "cli_option \<Rightarrow> string list" where
  "render_option (File v) = [''--file'', v]"
| "render_option (Port v) = [''--port'', v]"
| "render_option ForceFull = [''--force-full'']"
| "render_option ForceVersion = [''--force-version'']"
| "render_option Interactive = [''--interactive'']"
| "render_option AutoApprove = [''--auto-approve'']"
| "render_option (Other a) = [a]"

definition render_options :: "cli_option list \<Rightarrow> string list" where
  "render_options os = concat (map render_option os)"

text \<open>An argument that is one of the six option names is not an \<open>Other\<close> argument.\<close>

fun well_formed_option :: "cli_option \<Rightarrow> bool" where
  "well_formed_option (Other a) = (a \<notin> set option_names)"
| "well_formed_option _ = True"

text \<open>The value of the last \<^verbatim>\<open>--file\<close> option, or \<open>v\<close> when there is none.\<close>

fun file_value :: "string \<Rightarrow> cli_option list \<Rightarrow> string" where
  "file_value v [] = v"
| "file_value v (File w # os) = file_value w os"
| "file_value v (_ # os) = file_value v os"

text \<open>
  Every list of arguments is the rendering of a list of well formed options, followed by
  at most one \<^verbatim>\<open>--file\<close> or \<^verbatim>\<open>--port\<close> without a value: \<open>options_of\<close> computes them.
\<close>

definition flag_option :: "string \<Rightarrow> cli_option" where
  "flag_option a =
     (if a = ''--force-full'' then ForceFull
      else if a = ''--force-version'' then ForceVersion
      else if a = ''--interactive'' then Interactive
      else if a = ''--auto-approve'' then AutoApprove
      else Other a)"

fun options_of :: "string list \<Rightarrow> cli_option list \<times> string list" where
  "options_of [] = ([], [])"
| "options_of [a] =
     (if a = ''--file'' \<or> a = ''--port'' then ([], [a]) else ([flag_option a], []))"
| "options_of (a # v # rest) =
     (if a = ''--file'' then apfst ((#) (File v)) (options_of rest)
      else if a = ''--port'' then apfst ((#) (Port v)) (options_of rest)
      else apfst ((#) (flag_option a)) (options_of (v # rest)))"

subsection \<open>Events of the device discovery\<close>

fun is_discovery_event :: "event \<Rightarrow> bool" where
  "is_discovery_event Ev_DiscoverDevices = True"
| "is_discovery_event (Ev_QueryDeviceMetadata p) = True"
| "is_discovery_event _ = False"

section \<open>Example runs\<close>

text \<open>
  A device on port COM3 that reports firmware 3.1.0 and recognition model 1.0, and an
  image \<^verbatim>\<open>fw.bin\<close> with the modules OPFW and RECOG. After a reboot the device answers a
  ping from second 10 on.
\<close>

definition env_auto_approve :: environment where
  "env_auto_approve =
     \<lparr>argv = [''rsid-fw-update'', ''--file'', ''fw.bin'', ''--port'', ''COM3'',
              ''--auto-approve''],
      stdin = [],
      DiscoverDevices = [],
      QueryFirmwareVersion = (\<lambda>p. ''OPFW:3.1.0|RECOG:1.0''),
      QuerySerialNumber = (\<lambda>p. ''SN1''),
      Ping = (\<lambda>p t. if 10 \<le> t then Ok else NotOk 1),
      ExtractFwInformation =
        (\<lambda>f. if f = ''fw.bin'' then Some (''3.2.0'', ''1.0'', [''OPFW'', ''RECOG'']) else None),
      IsEncryptionSupported = (\<lambda>f sn. True),
      IsFwCompatibleWithHost = (\<lambda>v. True),
      UpdateModules = (\<lambda>st f ms. Ok)\<rparr>"

text \<open>
  The same device and an image with recognition model 2.0; the run is interactive, and
  the user agrees to proceed and declines to clear the database.
\<close>

definition env_interactive :: environment where
  "env_interactive =
     env_auto_approve
       \<lparr>argv := [''rsid-fw-update'', ''--file'', ''fw.bin'', ''--port'', ''COM3'',
                 ''--interactive''],
        stdin := [CHR ''y'', CHR 0x0A, CHR ''n'', CHR 0x0A],
        ExtractFwInformation :=
          (\<lambda>f. if f = ''fw.bin'' then Some (''3.2.0'', ''2.0'', [''OPFW'', ''RECOG''])
                else None)\<rparr>"

text \<open>Runs that fail, each for one reason.\<close>

definition env_no_arguments :: environment where
  "env_no_arguments = env_auto_approve\<lparr>argv := [''rsid-fw-update'']\<rparr>"









definition env_dead_device :: environment where
  "env_dead_device = env_auto_approve\<lparr>Ping := (\<lambda>p t. NotOk 1)\<rparr>"

text \<open>A command line that gives \<^verbatim>\<open>--file\<close> twice, the second time with an empty value.\<close>

definition argv_two_files :: "string list" where
  "argv_two_files = [''rsid-fw-update'', ''--file'', ''fw.bin'', ''--file'', []]"

section \<open>Version strings\<close>

subsection \<open>The library functions\<close>

lemma string_eq_iff: "string_eq a b \<longleftrightarrow> a = b"
  by (induction a b rule: string_eq.induct) auto

lemma string_find_None_iff: "string_find s t = None \<longleftrightarrow> \<not> sublist t s"
  by (induction s) (auto simp: sublist_Cons_right)

lemma string_find_char_None: "string_find s [c] = None \<longleftrightarrow> c \<notin> set s"
  by (induction s) auto

lemma string_find_char_Some:
  "string_find s [c] = Some pos \<Longrightarrow> drop (pos + 1) s = tl (dropWhile (\<lambda>x. x \<noteq> c) s)"
  by (induction s arbitrary: pos) (auto split: if_splits)

subsection \<open>The loop of ExtractModuleFromVersion visits the sections in order\<close>

lemma pipe_sections_step:
  "s \<noteq> [] \<Longrightarrow>
   pipe_sections s =
     takeWhile (\<lambda>c. c \<noteq> CHR ''|'') s #
     pipe_sections (drop 1 (dropWhile (\<lambda>c. c \<noteq> CHR ''|'') s))"
proof (induction s)
  case Nil
  then show ?case by simp
next
  case (Cons c s)
  show ?case
  proof (cases "c = CHR ''|''")
    case True
    then show ?thesis by simp
  next
    case False
    show ?thesis
    proof (cases s)
      case Nil
      with False show ?thesis by simp
    next
      case (Cons d s')
      with Cons.IH False show ?thesis by simp
    qed
  qed
qed

lemma ExtractModuleFromVersion_sections:
  "ExtractModuleFromVersion name full =
     (case find (sublist name) (pipe_sections full) of
        None \<Rightarrow> ''Unknown''
      | Some sect \<Rightarrow>
          if CHR '':'' \<in> set sect then tl (dropWhile (\<lambda>c. c \<noteq> CHR '':'') sect) else sect)"
proof (induction name full rule: ExtractModuleFromVersion.induct)
  case (1 name stream)
  show ?case
  proof (cases "stream = []")
    case True
    then show ?thesis
      by (subst ExtractModuleFromVersion.simps) (simp add: getline_def)
  next
    case False
    let ?sect = "takeWhile (\<lambda>c. c \<noteq> CHR ''|'') stream"
    let ?rest = "drop 1 (dropWhile (\<lambda>c. c \<noteq> CHR ''|'') stream)"
    have g: "getline stream CHR ''|'' = Some (?sect, ?rest)"
      using False by (simp add: getline_def)
    have ps: "pipe_sections stream = ?sect # pipe_sections ?rest"
      using False by (rule pipe_sections_step)
    show ?thesis
    proof (cases "sublist name ?sect")
      case True
      then have f: "string_find ?sect name \<noteq> None"
        by (simp add: string_find_None_iff)
      show ?thesis
      proof (cases "string_find ?sect '':''")
        case None
        then have "CHR '':'' \<notin> set ?sect"
          by (simp add: string_find_char_None)
        with None True f g ps show ?thesis
          by (subst ExtractModuleFromVersion.simps) simp
      next
        case (Some pos)
        then have "CHR '':'' \<in> set ?sect"
          using string_find_char_None[of ?sect "CHR '':''"] by auto
        moreover have "drop (pos + 1) ?sect = tl (dropWhile (\<lambda>c. c \<noteq> CHR '':'') ?sect)"
          using Some by (rule string_find_char_Some)
        ultimately show ?thesis
          using Some True f g ps by (subst ExtractModuleFromVersion.simps) simp
      qed
    next
      case False
      then have f: "string_find ?sect name = None"
        by (simp add: string_find_None_iff)
      have "ExtractModuleFromVersion name stream = ExtractModuleFromVersion name ?rest"
        using f g by (subst ExtractModuleFromVersion.simps) simp
      also have "\<dots> =
        (case find (sublist name) (pipe_sections ?rest) of
           None \<Rightarrow> ''Unknown''
         | Some sect \<Rightarrow>
             if CHR '':'' \<in> set sect then tl (dropWhile (\<lambda>c. c \<noteq> CHR '':'') sect)
             else sect)"
        using "1.IH"[OF g refl] f by simp
      finally show ?thesis
        using False ps by simp
    qed
  qed
qed

subsection \<open>Composite strings of tokens\<close>

lemma pipe_sections_append_pipe:
  "CHR ''|'' \<notin> set s \<Longrightarrow> pipe_sections (s @ CHR ''|'' # r) = s # pipe_sections r"
  by (induction s) auto

lemma pipe_sections_single:
  "CHR ''|'' \<notin> set s \<Longrightarrow> s \<noteq> [] \<Longrightarrow> pipe_sections s = [s]"
proof (induction s)
  case Nil
  then show ?case by simp
next
  case (Cons c s)
  then show ?case by (cases s) auto
qed

lemma pipe_sections_join_pipe:
  "\<forall>s \<in> set secs. CHR ''|'' \<notin> set s \<and> s \<noteq> [] \<Longrightarrow> pipe_sections (join_pipe secs) = secs"
  by (induction secs rule: join_pipe.induct)
     (auto simp: pipe_sections_append_pipe pipe_sections_single)

lemma sublist_token_iff:
  assumes "CHR '':'' \<notin> set n" and "CHR '':'' \<notin> set v"
  shows "sublist (q @ '':'') (n @ CHR '':'' # v) \<longleftrightarrow> suffix q n"
proof
  assume "sublist (q @ '':'') (n @ CHR '':'' # v)"
  then obtain ps ss where "n @ CHR '':'' # v = ps @ (q @ '':'') @ ss"
    by (auto simp: sublist_def)
  then have "n @ CHR '':'' # v = (ps @ q) @ CHR '':'' # ss"
    by simp
  with assms have "n = ps @ q"
    by (auto simp: append_eq_append_conv2 Cons_eq_append_conv append_eq_Cons_conv)
  then show "suffix q n"
    by (simp add: suffix_def)
next
  assume "suffix q n"
  then obtain ps where "n = ps @ q"
    by (auto simp: suffix_def)
  then have "n @ CHR '':'' # v = ps @ (q @ '':'') @ v"
    by simp
  then show "sublist (q @ '':'') (n @ CHR '':'' # v)"
    unfolding sublist_def by blast
qed

lemma after_colon_token:
  "CHR '':'' \<notin> set n \<Longrightarrow> tl (dropWhile (\<lambda>c. c \<noteq> CHR '':'') (n @ CHR '':'' # v)) = v"
  by (induction n) auto

lemma find_map_option:
  "find P (map f xs) = map_option f (find (\<lambda>x. P (f x)) xs)"
  by (induction xs) auto

subsection \<open>Extraction of a named token\<close>

text \<open>
  C3, as the code has it. The claim reads: for every composite version string of
  pipe-separated \<^verbatim>\<open>NAME:VERSION\<close> tokens and every queried name, the extraction returns
  the version of the token with that name, and \<^verbatim>\<open>"Unknown"\<close> when the name is absent.
  The code looks for the name and its colon anywhere in a section, so what it returns is
  the version of the first token whose name ends with the queried name, and
  \<^verbatim>\<open>"Unknown"\<close> when no name ends with it. This holds for all tokens whose names and
  versions contain neither a pipe nor a colon, and for every queried name \<open>q\<close>, which
  the parsers pass with its colon.
\<close>

theorem ExtractModuleFromVersion_token:
  assumes "list_all plain_token ts"
  shows "ExtractModuleFromVersion (q @ '':'') (composite ts) =
           (case find (\<lambda>nv. suffix q (fst nv)) ts of
              None \<Rightarrow> ''Unknown''
            | Some nv \<Rightarrow> snd nv)"
proof -
  have secs: "pipe_sections (composite ts) = map token ts"
    unfolding composite_def using assms
    by (intro pipe_sections_join_pipe) (auto simp: token_def plain_token_def list_all_iff)
  have "find (\<lambda>nv. sublist (q @ '':'') (token nv)) ts = find (\<lambda>nv. suffix q (fst nv)) ts"
    using assms
    by (intro find_cong refl) (auto simp: token_def plain_token_def sublist_token_iff list_all_iff)
  then have f: "find (sublist (q @ '':'')) (map token ts) =
                map_option token (find (\<lambda>nv. suffix q (fst nv)) ts)"
    by (simp add: find_map_option)
  show ?thesis
  proof (cases "find (\<lambda>nv. suffix q (fst nv)) ts")
    case None
    with f secs show ?thesis
      by (simp add: ExtractModuleFromVersion_sections)
  next
    case (Some nv)
    then have "nv \<in> set ts"
      by (metis find_Some_iff nth_mem)
    with assms have "CHR '':'' \<notin> set (fst nv)"
      by (auto simp: plain_token_def list_all_iff)
    then have "tl (dropWhile (\<lambda>c. c \<noteq> CHR '':'') (token nv)) = snd nv"
      by (simp add: token_def after_colon_token)
    with Some f secs show ?thesis
      by (simp add: ExtractModuleFromVersion_sections token_def)
  qed
qed

text \<open>
  The device string \<^verbatim>\<open>OPFW:1.2.3|RECOG:4.5.6\<close> of the specification: the recognition
  version is found in the second token.
\<close>

theorem ExtractModuleFromVersion_token_witness:
  "list_all plain_token [(''OPFW'', ''1.2.3''), (''RECOG'', ''4.5.6'')] \<and>
   ExtractModuleFromVersion (''RECOG'' @ '':'')
     (composite [(''OPFW'', ''1.2.3''), (''RECOG'', ''4.5.6'')]) = ''4.5.6''"
proof -
  have h: "list_all plain_token [(''OPFW'', ''1.2.3''), (''RECOG'', ''4.5.6'')]"
    by (simp add: plain_token_def)
  from ExtractModuleFromVersion_token[OF h, of "''RECOG''"] h show ?thesis
    by (simp add: suffix_def)
qed

text \<open>
  Where the claim as it is written fails: in \<^verbatim>\<open>XOPFW:1.0|OPFW:2.0\<close> the token named
  OPFW has the version 2.0, and the firmware version that is parsed is 1.0, the version
  of the token named XOPFW.
\<close>

theorem ParseFirmwareVersion_other_token:
  "ParseFirmwareVersion ''XOPFW:1.0|OPFW:2.0'' = ''1.0'' \<and>
   ParseFirmwareVersion ''XOPFW:1.0|OPFW:2.0'' \<noteq> ''2.0''"
  by code_simp

subsection \<open>Which section is selected\<close>

text \<open>
  C10: for every composite version string, \<^verbatim>\<open>ExtractModuleFromVersion\<close> selects the
  first pipe-separated section that contains the searched name as a substring, anywhere
  in the section, and returns what follows the first colon of that section; when the
  section has no colon the whole section is returned, and not \<^verbatim>\<open>"Unknown"\<close>, which is
  the result only when no section contains the name.
\<close>

theorem ExtractModuleFromVersion_first_section:
  "(find (sublist name) (pipe_sections full) = None \<longrightarrow>
      ExtractModuleFromVersion name full = ''Unknown'') \<and>
   (\<forall>sect. find (sublist name) (pipe_sections full) = Some sect \<longrightarrow>
      (CHR '':'' \<in> set sect \<longrightarrow>
         ExtractModuleFromVersion name full = tl (dropWhile (\<lambda>c. c \<noteq> CHR '':'') sect)) \<and>
      (CHR '':'' \<notin> set sect \<longrightarrow> ExtractModuleFromVersion name full = sect))"
  by (simp add: ExtractModuleFromVersion_sections)

text \<open>
  Three strings: a section without a colon is returned whole; the name is found in the
  middle of a section; no section contains the name.
\<close>

theorem ExtractModuleFromVersion_first_section_witness:
  "find (sublist ''OPFW'') (pipe_sections ''OPFW|RECOG:4.5.6'') = Some ''OPFW'' \<and>
   CHR '':'' \<notin> set ''OPFW'' \<and>
   ExtractModuleFromVersion ''OPFW'' ''OPFW|RECOG:4.5.6'' = ''OPFW'' \<and>
   find (sublist ''COG'') (pipe_sections ''OPFW:1.2.3|RECOG:4.5.6'') = Some ''RECOG:4.5.6'' \<and>
   CHR '':'' \<in> set ''RECOG:4.5.6'' \<and>
   ExtractModuleFromVersion ''COG'' ''OPFW:1.2.3|RECOG:4.5.6'' = ''4.5.6'' \<and>
   find (sublist ''NNLED'') (pipe_sections ''OPFW:1.2.3|RECOG:4.5.6'') = None \<and>
   ExtractModuleFromVersion ''NNLED'' ''OPFW:1.2.3|RECOG:4.5.6'' = ''Unknown''"
proof -
  have a: "find (sublist ''OPFW'') (pipe_sections ''OPFW|RECOG:4.5.6'') = Some ''OPFW''"
    by code_simp
  have b: "find (sublist ''COG'') (pipe_sections ''OPFW:1.2.3|RECOG:4.5.6'') =
           Some ''RECOG:4.5.6''"
    by code_simp
  have c: "find (sublist ''NNLED'') (pipe_sections ''OPFW:1.2.3|RECOG:4.5.6'') = None"
    by code_simp
  from a b c
    ExtractModuleFromVersion_first_section[of "''OPFW''" "''OPFW|RECOG:4.5.6''"]
    ExtractModuleFromVersion_first_section[of "''COG''" "''OPFW:1.2.3|RECOG:4.5.6''"]
    ExtractModuleFromVersion_first_section[of "''NNLED''" "''OPFW:1.2.3|RECOG:4.5.6''"]
  show ?thesis by simp
qed

subsection \<open>Database compatibility\<close>

text \<open>
  C4: for every pair of recognition version strings, the one of the device and the one
  of the new image, the database is compatible if and only if the two strings are equal
  byte for byte; any difference makes them incompatible.
\<close>

theorem is_database_compatible_iff:
  "is_database_compatible current_recognition_version new_recognition_version \<longleftrightarrow>
     current_recognition_version = new_recognition_version"
  by (simp add: is_database_compatible_def string_eq_iff)

section \<open>Waiting for the device\<close>

lemma WaitForDevice_loop_alive:
  "WaitForDevice_loop e port m True c = (True, c)"
  by (subst WaitForDevice_loop.simps) simp

text \<open>The loop stops at the first second after \<open>c\<close> at which the device answers.\<close>

lemma WaitForDevice_loop_first:
  "\<not> a \<Longrightarrow> c < t \<Longrightarrow> t \<le> m \<Longrightarrow> IsDeviceAlive e port t \<Longrightarrow>
   \<forall>s. c < s \<and> s < t \<longrightarrow> \<not> IsDeviceAlive e port s \<Longrightarrow>
   WaitForDevice_loop e port m a c = (True, t)"
proof (induction e port m a c rule: WaitForDevice_loop.induct)
  case (1 e port m a c)
  show ?case
  proof (cases "c + 1 = t")
    case True
    with "1.prems" show ?thesis
      by (subst WaitForDevice_loop.simps) (simp add: WaitForDevice_loop_alive)
  next
    case False
    with "1.prems" have "c + 1 < t" and "\<not> IsDeviceAlive e port (c + 1)"
      by auto
    with "1.prems" "1.IH" show ?thesis
      by (subst WaitForDevice_loop.simps) simp
  qed
qed

text \<open>When the device never answers, the loop gives up at the maximum.\<close>

lemma WaitForDevice_loop_never:
  "\<not> a \<Longrightarrow> c \<le> m \<Longrightarrow> \<forall>s. c < s \<and> s \<le> m \<longrightarrow> \<not> IsDeviceAlive e port s \<Longrightarrow>
   WaitForDevice_loop e port m a c = (False, m)"
proof (induction e port m a c rule: WaitForDevice_loop.induct)
  case (1 e port m a c)
  show ?case
  proof (cases "c < m")
    case True
    with "1.prems" have "\<not> IsDeviceAlive e port (c + 1)"
      by auto
    with True "1.prems" "1.IH" show ?thesis
      by (subst WaitForDevice_loop.simps) simp
  next
    case False
    with "1.prems" show ?thesis
      by (subst WaitForDevice_loop.simps) simp
  qed
qed

text \<open>A positive result comes from a ping that was answered, after the start.\<close>

lemma WaitForDevice_loop_True:
  "\<not> a \<Longrightarrow> WaitForDevice_loop e port m a c = (True, t) \<Longrightarrow>
   c < t \<and> t \<le> m \<and> IsDeviceAlive e port t"
proof (induction e port m a c rule: WaitForDevice_loop.induct)
  case (1 e port m a c)
  show ?case
  proof (cases "c < m")
    case True
    note lt = this
    show ?thesis
    proof (cases "IsDeviceAlive e port (c + 1)")
      case True
      with lt "1.prems" have "t = c + 1"
        by (subst (asm) WaitForDevice_loop.simps) (simp add: WaitForDevice_loop_alive)
      with True lt show ?thesis
        by simp
    next
      case False
      with lt "1.prems" have "WaitForDevice_loop e port m False (c + 1) = (True, t)"
        by (subst (asm) WaitForDevice_loop.simps) simp
      with "1.IH" lt False "1.prems" have "c + 1 < t \<and> t \<le> m \<and> IsDeviceAlive e port t"
        by simp
      then show ?thesis
        by simp
    qed
  next
    case False
    with "1.prems" show ?thesis
      by (subst (asm) WaitForDevice_loop.simps) simp
  qed
qed

text \<open>
  C2: with the bounds 6 and 30 and for every schedule of the device's answers,
  \<^verbatim>\<open>WaitForDevice\<close> never returns true before second 6 has passed (a true result is
  returned after more than 6 and at most 30 seconds, at a second at which the device
  answered); when the device answers a ping for the first time at second 10, it returns
  true at that second; and when the device answers no ping up to second 30, it returns
  false after 30 seconds. The function is total, so it always returns.
\<close>

theorem WaitForDevice_bounds:
  "(WaitForDevice e MIN_WAIT_FOR_DEVICE MAX_WAIT_FOR_DEVICE port \<longrightarrow>
      6 < WaitForDevice_seconds e MIN_WAIT_FOR_DEVICE MAX_WAIT_FOR_DEVICE port \<and>
      WaitForDevice_seconds e MIN_WAIT_FOR_DEVICE MAX_WAIT_FOR_DEVICE port \<le> 30 \<and>
      IsDeviceAlive e port (WaitForDevice_seconds e MIN_WAIT_FOR_DEVICE MAX_WAIT_FOR_DEVICE port))
   \<and> ((\<forall>t < 10. \<not> IsDeviceAlive e port t) \<and> IsDeviceAlive e port 10 \<longrightarrow>
      WaitForDevice e MIN_WAIT_FOR_DEVICE MAX_WAIT_FOR_DEVICE port \<and>
      WaitForDevice_seconds e MIN_WAIT_FOR_DEVICE MAX_WAIT_FOR_DEVICE port = 10)
   \<and> ((\<forall>t. 6 < t \<and> t \<le> 30 \<longrightarrow> \<not> IsDeviceAlive e port t) \<longrightarrow>
      \<not> WaitForDevice e MIN_WAIT_FOR_DEVICE MAX_WAIT_FOR_DEVICE port \<and>
      WaitForDevice_seconds e MIN_WAIT_FOR_DEVICE MAX_WAIT_FOR_DEVICE port = 30)"
proof (intro conjI impI)
  let ?r = "WaitForDevice_loop e port 30 False 6"
  assume "WaitForDevice e MIN_WAIT_FOR_DEVICE MAX_WAIT_FOR_DEVICE port"
  then have "?r = (True, snd ?r)"
    by (simp add: WaitForDevice_def MIN_WAIT_FOR_DEVICE_def MAX_WAIT_FOR_DEVICE_def prod_eq_iff)
  then have "6 < snd ?r \<and> snd ?r \<le> 30 \<and> IsDeviceAlive e port (snd ?r)"
    using WaitForDevice_loop_True[of False e port 30 6 "snd ?r"] by simp
  then show "6 < WaitForDevice_seconds e MIN_WAIT_FOR_DEVICE MAX_WAIT_FOR_DEVICE port"
    and "WaitForDevice_seconds e MIN_WAIT_FOR_DEVICE MAX_WAIT_FOR_DEVICE port \<le> 30"
    and "IsDeviceAlive e port
           (WaitForDevice_seconds e MIN_WAIT_FOR_DEVICE MAX_WAIT_FOR_DEVICE port)"
    by (simp_all add: WaitForDevice_seconds_def MIN_WAIT_FOR_DEVICE_def
        MAX_WAIT_FOR_DEVICE_def)
next
  assume h: "(\<forall>t < 10. \<not> IsDeviceAlive e port t) \<and> IsDeviceAlive e port 10"
  have "WaitForDevice_loop e port 30 False 6 = (True, 10)"
    using h by (intro WaitForDevice_loop_first) auto
  then show "WaitForDevice e MIN_WAIT_FOR_DEVICE MAX_WAIT_FOR_DEVICE port"
    and "WaitForDevice_seconds e MIN_WAIT_FOR_DEVICE MAX_WAIT_FOR_DEVICE port = 10"
    by (simp_all add: WaitForDevice_def WaitForDevice_seconds_def MIN_WAIT_FOR_DEVICE_def
        MAX_WAIT_FOR_DEVICE_def)
next
  assume h: "\<forall>t. 6 < t \<and> t \<le> 30 \<longrightarrow> \<not> IsDeviceAlive e port t"
  have "WaitForDevice_loop e port 30 False 6 = (False, 30)"
    using h by (intro WaitForDevice_loop_never) auto
  then show "\<not> WaitForDevice e MIN_WAIT_FOR_DEVICE MAX_WAIT_FOR_DEVICE port"
    and "WaitForDevice_seconds e MIN_WAIT_FOR_DEVICE MAX_WAIT_FOR_DEVICE port = 30"
    by (simp_all add: WaitForDevice_def WaitForDevice_seconds_def MIN_WAIT_FOR_DEVICE_def
        MAX_WAIT_FOR_DEVICE_def)
qed

text \<open>
  A device that answers from second 10 on is found alive at second 10, and a device
  that never answers is given up after 30 seconds.
\<close>

theorem WaitForDevice_bounds_witness:
  "\<not> (\<exists>t < 10. IsDeviceAlive env_auto_approve ''COM3'' t) \<and>
   IsDeviceAlive env_auto_approve ''COM3'' 10 \<and>
   WaitForDevice env_auto_approve MIN_WAIT_FOR_DEVICE MAX_WAIT_FOR_DEVICE ''COM3'' \<and>
   WaitForDevice_seconds env_auto_approve MIN_WAIT_FOR_DEVICE MAX_WAIT_FOR_DEVICE ''COM3'' = 10 \<and>
   \<not> (\<exists>t. 6 < t \<and> t \<le> 30 \<and> IsDeviceAlive env_dead_device ''COM3'' t) \<and>
   \<not> WaitForDevice env_dead_device MIN_WAIT_FOR_DEVICE MAX_WAIT_FOR_DEVICE ''COM3'' \<and>
   WaitForDevice_seconds env_dead_device MIN_WAIT_FOR_DEVICE MAX_WAIT_FOR_DEVICE ''COM3'' = 30"
proof -
  have a: "\<forall>t < 10. \<not> IsDeviceAlive env_auto_approve ''COM3'' t"
    by (simp add: IsDeviceAlive_def env_auto_approve_def)
  have b: "IsDeviceAlive env_auto_approve ''COM3'' 10"
    by (simp add: IsDeviceAlive_def env_auto_approve_def)
  have c: "\<forall>t. 6 < t \<and> t \<le> 30 \<longrightarrow> \<not> IsDeviceAlive env_dead_device ''COM3'' t"
    by (simp add: IsDeviceAlive_def env_dead_device_def)
  from a b c
    WaitForDevice_bounds[of env_auto_approve "''COM3''"]
    WaitForDevice_bounds[of env_dead_device "''COM3''"]
  show ?thesis by blast
qed

section \<open>The command line\<close>

lemma is_valid_ParseCommandLineArgs_loop [simp]:
  "is_valid (ParseCommandLineArgs_loop xs args) = is_valid args"
  by (induction xs args rule: ParseCommandLineArgs_loop.induct) (auto split: list.splits)

text \<open>One option is consumed by one or two rounds of the loop.\<close>

lemma ParseCommandLineArgs_loop_option:
  "well_formed_option x \<Longrightarrow>
   ParseCommandLineArgs_loop (render_option x @ rest) args =
   ParseCommandLineArgs_loop rest
     (case x of
        File v \<Rightarrow> args\<lparr>fw_file := v\<rparr>
      | Port v \<Rightarrow> args\<lparr>serial_port := v\<rparr>
      | ForceFull \<Rightarrow> args\<lparr>force_full := True\<rparr>
      | ForceVersion \<Rightarrow> args\<lparr>force_version := True\<rparr>
      | Interactive \<Rightarrow> args\<lparr>is_interactive := True\<rparr>
      | AutoApprove \<Rightarrow> args\<lparr>auto_approve := True\<rparr>
      | Other a \<Rightarrow> args)"
  by (cases x) (auto simp: option_names_def)

lemma ParseCommandLineArgs_loop_dangling:
  "dangling \<in> set [[], [''--file''], [''--port'']] \<Longrightarrow>
   ParseCommandLineArgs_loop dangling args = args"
  by auto

lemma ParseCommandLineArgs_loop_options:
  assumes "list_all well_formed_option os"
    and "dangling \<in> set [[], [''--file''], [''--port'']]"
  shows "fw_file (ParseCommandLineArgs_loop (render_options os @ dangling) args) =
           file_value (fw_file args) os \<and>
         is_interactive (ParseCommandLineArgs_loop (render_options os @ dangling) args) =
           (is_interactive args \<or> Interactive \<in> set os) \<and>
         auto_approve (ParseCommandLineArgs_loop (render_options os @ dangling) args) =
           (auto_approve args \<or> AutoApprove \<in> set os)"
  using assms(1)
proof (induction os arbitrary: args)
  case Nil
  then show ?case
    using ParseCommandLineArgs_loop_dangling[OF assms(2)] by (simp add: render_options_def)
next
  case (Cons x os)
  then have wf: "well_formed_option x" and wfs: "list_all well_formed_option os"
    by auto
  have "render_options (x # os) @ dangling = render_option x @ (render_options os @ dangling)"
    by (simp add: render_options_def)
  then show ?case
    using ParseCommandLineArgs_loop_option[OF wf, of "render_options os @ dangling" args]
      Cons.IH[OF wfs]
    by (cases x) auto
qed

text \<open>Every list of arguments is the rendering of well formed options.\<close>

lemma render_flag_option:
  "a \<noteq> ''--file'' \<Longrightarrow> a \<noteq> ''--port'' \<Longrightarrow>
   render_option (flag_option a) = [a] \<and> well_formed_option (flag_option a)"
  by (simp add: flag_option_def option_names_def)

lemma options_of_render:
  "render_options (fst (options_of xs)) @ snd (options_of xs) = xs"
  by (induction xs rule: options_of.induct) (simp_all add: render_options_def render_flag_option)

lemma options_of_well_formed:
  "list_all well_formed_option (fst (options_of xs))"
  by (induction xs rule: options_of.induct) (simp_all add: render_flag_option)

lemma options_of_dangling:
  "snd (options_of xs) \<in> set [[], [''--file''], [''--port'']]"
  by (induction xs rule: options_of.induct) auto

lemma every_command_line_renders:
  "\<exists>os dangling. xs = render_options os @ dangling \<and> list_all well_formed_option os \<and>
                 dangling \<in> set [[], [''--file''], [''--port'']]"
  using options_of_render[of xs] options_of_well_formed[of xs] options_of_dangling[of xs]
  by metis

lemma main_invalid_arguments:
  "\<not> is_valid (ParseCommandLineArgs (argv e)) \<Longrightarrow>
   main e = \<lparr>trace = [], exit_code = Some FAILURE_MAIN\<rparr>"
  by (simp add: main_def)

text \<open>
  C8, as the code has it. The claim reads: the arguments are valid if and only if at
  least one argument is given, a non-empty value follows \<^verbatim>\<open>--file\<close>, and
  \<^verbatim>\<open>--interactive\<close> and \<^verbatim>\<open>--auto-approve\<close> are not both present; an invalid result makes
  the program exit with failure without touching any device. The parser takes the
  argument after \<^verbatim>\<open>--file\<close> or \<^verbatim>\<open>--port\<close> as a value whatever it is, and a later
  \<^verbatim>\<open>--file\<close> replaces an earlier one. So, for a run whose arguments after the program
  name are the options \<open>os\<close>, possibly followed by a \<^verbatim>\<open>--file\<close> or \<^verbatim>\<open>--port\<close> without
  a value: the arguments are valid if and only if at least one argument is given, the
  value of the last \<^verbatim>\<open>--file\<close> option is not empty, and \<^verbatim>\<open>--interactive\<close> and
  \<^verbatim>\<open>--auto-approve\<close> are not both among the options; and when they are not valid the
  run has no event at all and returns the failure code.
\<close>

theorem ParseCommandLineArgs_valid_iff:
  assumes "drop 1 (argv e) = render_options os @ dangling"
    and "list_all well_formed_option os"
    and "dangling \<in> set [[], [''--file''], [''--port'']]"
  shows "(is_valid (ParseCommandLineArgs (argv e)) \<longleftrightarrow>
            drop 1 (argv e) \<noteq> [] \<and> file_value [] os \<noteq> [] \<and>
            \<not> (Interactive \<in> set os \<and> AutoApprove \<in> set os)) \<and>
         (\<not> is_valid (ParseCommandLineArgs (argv e)) \<longrightarrow>
            main e = \<lparr>trace = [], exit_code = Some FAILURE_MAIN\<rparr>)"
proof (intro conjI impI)
  show "is_valid (ParseCommandLineArgs (argv e)) \<longleftrightarrow>
          drop 1 (argv e) \<noteq> [] \<and> file_value [] os \<noteq> [] \<and>
          \<not> (Interactive \<in> set os \<and> AutoApprove \<in> set os)"
  proof (cases "drop 1 (argv e) = []")
    case True
    then have "length (argv e) < 2"
      by simp
    with True show ?thesis
      by (simp add: ParseCommandLineArgs_def CommandLineArgs_init_def)
  next
    case False
    then have len: "\<not> length (argv e) < 2"
      by simp
    from ParseCommandLineArgs_loop_options[OF assms(2,3), of CommandLineArgs_init]
    show ?thesis
      using False len assms(1)
      by (auto simp: ParseCommandLineArgs_def CommandLineArgs_init_def Let_def)
  qed
next
  assume "\<not> is_valid (ParseCommandLineArgs (argv e))"
  then show "main e = \<lparr>trace = [], exit_code = Some FAILURE_MAIN\<rparr>"
    by (rule main_invalid_arguments)
qed

text \<open>
  An interactive run with a file and a port is valid; a run with no argument is not,
  and does nothing.
\<close>

theorem ParseCommandLineArgs_valid_iff_witness:
  "drop 1 (argv env_interactive) =
     render_options [File ''fw.bin'', Port ''COM3'', Interactive] @ [] \<and>
   list_all well_formed_option [File ''fw.bin'', Port ''COM3'', Interactive] \<and>
   is_valid (ParseCommandLineArgs (argv env_interactive)) \<and>
   drop 1 (argv env_no_arguments) = render_options [] @ [] \<and>
   \<not> is_valid (ParseCommandLineArgs (argv env_no_arguments)) \<and>
   main env_no_arguments = \<lparr>trace = [], exit_code = Some FAILURE_MAIN\<rparr>"
proof -
  have a: "drop 1 (argv env_interactive) =
             render_options [File ''fw.bin'', Port ''COM3'', Interactive] @ []"
    by (simp add: env_interactive_def env_auto_approve_def render_options_def)
  have b: "list_all well_formed_option [File ''fw.bin'', Port ''COM3'', Interactive]"
    by simp
  have c: "drop 1 (argv env_no_arguments) = render_options [] @ []"
    by (simp add: env_no_arguments_def env_auto_approve_def render_options_def)
  have d: "list_all well_formed_option []" and n: "[] \<in> set [[], [''--file''], [''--port'']]"
    by simp_all
  have f: "drop 1 (argv env_interactive) \<noteq> []"
    by (simp add: env_interactive_def env_auto_approve_def)
  have g: "file_value [] [File ''fw.bin'', Port ''COM3'', Interactive] \<noteq> [] \<and>
           \<not> (Interactive \<in> set [File ''fw.bin'', Port ''COM3'', Interactive] \<and>
              AutoApprove \<in> set [File ''fw.bin'', Port ''COM3'', Interactive])"
    by simp
  have h: "drop 1 (argv env_no_arguments) = []"
    by (simp add: env_no_arguments_def env_auto_approve_def)
  from ParseCommandLineArgs_valid_iff[OF a b n] f g
  have v: "is_valid (ParseCommandLineArgs (argv env_interactive))"
    by blast
  from ParseCommandLineArgs_valid_iff[OF c d n] h
  have w: "\<not> is_valid (ParseCommandLineArgs (argv env_no_arguments)) \<and>
           main env_no_arguments = \<lparr>trace = [], exit_code = Some FAILURE_MAIN\<rparr>"
    by blast
  from a b c v w show ?thesis
    by blast
qed

text \<open>
  Where the claim as it is written fails: in \<^verbatim>\<open>rsid-fw-update --file fw.bin --file ""\<close>
  an argument is given, the non-empty value \<^verbatim>\<open>fw.bin\<close> follows \<^verbatim>\<open>--file\<close>, and neither
  \<^verbatim>\<open>--interactive\<close> nor \<^verbatim>\<open>--auto-approve\<close> is present, and the arguments are not valid.
\<close>

theorem ParseCommandLineArgs_two_files:
  "\<not> is_valid (ParseCommandLineArgs argv_two_files) \<and>
   2 \<le> length argv_two_files \<and>
   argv_two_files ! 1 = ''--file'' \<and> argv_two_files ! 2 \<noteq> [] \<and>
   \<not> (''--interactive'' \<in> set argv_two_files \<and> ''--auto-approve'' \<in> set argv_two_files)"
  by code_simp

section \<open>The runs of the program\<close>

subsection \<open>The paths through main\<close>

text \<open>A question is left unanswered exactly when no key \<^verbatim>\<open>y\<close> or \<^verbatim>\<open>n\<close> is left to read.\<close>

lemma UserApproval_None_iff:
  "UserApproval input = None \<longleftrightarrow> CHR ''y'' \<notin> set input \<and> CHR ''n'' \<notin> set input"
  by (induction input) auto

lemma after_record [simp]:
  "after t \<lparr>trace = x, exit_code = c\<rparr> = \<lparr>trace = t @ x, exit_code = c\<rparr>"
  by (simp add: after_def)

text \<open>The last part always calls \<^verbatim>\<open>UpdateModules\<close>, once.\<close>

lemma main_flash_eq:
  "main_flash e args d names u =
     \<lparr>trace = [Ev_UpdateModules
                 \<lparr>settings_port = serialPort (config d), settings_force_full = force_full args\<rparr>
                 (fw_file args) (if u then names else filter (\<lambda>m. m \<noteq> RECOG) names)],
      exit_code = Some (if UpdateModules e
                 \<lparr>settings_port = serialPort (config d), settings_force_full = force_full args\<rparr>
                 (fw_file args) (if u then names else filter (\<lambda>m. m \<noteq> RECOG) names) = Ok
                        then SUCCESS_MAIN else FAILURE_MAIN)\<rparr>"
  by (simp add: main_flash_def Let_def string_eq_iff)

text \<open>
  The five ways through the negotiation: the question whether to proceed is not answered
  or is declined, the new version is refused, the question whether to clear the database
  is not answered, or the modules are flashed. \<open>pa\<close> and \<open>ca\<close> are the answers that
  were given, as events.
\<close>

lemma main_negotiate_cases
  [case_names proceed_unanswered declined incompatible clear_unanswered flashed]:
  fixes e args d fw rv names in1
  defines "r \<equiv> main_negotiate e args d fw rv names in1"
    and "sm \<equiv> Ev_Summary d (IsFwCompatibleWithHost e (fw_version (metadata d)))
                 (IsFwCompatibleWithHost e fw) fw rv"
  obtains
    "is_interactive args" "r = \<lparr>trace = [sm], exit_code = None\<rparr>"
    "UserApproval in1 = None"
  | "is_interactive args"
    "r = \<lparr>trace = [sm, Ev_ProceedAnswer False], exit_code = Some FAILURE_MAIN\<rparr>"
  | pa where "pa = (if is_interactive args then [Ev_ProceedAnswer True] else [])"
      "\<not> IsFwCompatibleWithHost e fw" "\<not> force_version args"
      "r = \<lparr>trace = sm # pa, exit_code = Some FAILURE_MAIN\<rparr>"
  | pa where "pa = (if is_interactive args then [Ev_ProceedAnswer True] else [])"
      "IsFwCompatibleWithHost e fw \<or> force_version args"
      "recognition_version (metadata d) \<noteq> rv" "\<not> auto_approve args"
      "r = \<lparr>trace = sm # pa, exit_code = None\<rparr>"
  | pa ca u ms st where "pa = (if is_interactive args then [Ev_ProceedAnswer True] else [])"
      "IsFwCompatibleWithHost e fw \<or> force_version args"
      "ca = (if recognition_version (metadata d) \<noteq> rv \<and> \<not> auto_approve args
             then [Ev_ClearDatabaseAnswer u] else [])"
      "\<not> u \<longrightarrow> recognition_version (metadata d) \<noteq> rv \<and> \<not> auto_approve args"
      "ms = (if u then names else filter (\<lambda>m. m \<noteq> RECOG) names)"
      "st = \<lparr>settings_port = serialPort (config d), settings_force_full = force_full args\<rparr>"
      "r = \<lparr>trace = sm # pa @ ca @ [Ev_UpdateModules st (fw_file args) ms],
            exit_code = Some (if UpdateModules e st (fw_file args) ms = Ok
                              then SUCCESS_MAIN else FAILURE_MAIN)\<rparr>"
proof -
  define dbc where "dbc = (recognition_version (metadata d) = rv)"
  have dbc: "is_database_compatible (recognition_version (metadata d)) rv = dbc"
    by (simp add: is_database_compatible_def string_eq_iff dbc_def)
  define first where
    "first = (if is_interactive args then UserApproval in1 else Some (True, in1))"
  show thesis
  proof (cases first)
    case None
    then have "is_interactive args"
      by (auto simp: first_def split: if_splits)
    moreover have "r = \<lparr>trace = [sm], exit_code = None\<rparr>"
      using None unfolding first_def
      by (auto simp: r_def sm_def main_negotiate_def Let_def split: if_splits)
    moreover have "UserApproval in1 = None"
      using None by (auto simp: first_def split: if_splits)
    ultimately show thesis by (rule that(1))
  next
    case (Some a)
    then obtain user_agreed in2 where first: "first = Some (user_agreed, in2)"
      by (cases a) auto
    define pa where "pa = (if is_interactive args then [Ev_ProceedAnswer True] else [])"
    show thesis
    proof (cases user_agreed)
      case False
      with first have i: "is_interactive args"
        by (auto simp: first_def split: if_splits)
      have "r = \<lparr>trace = [sm, Ev_ProceedAnswer False], exit_code = Some FAILURE_MAIN\<rparr>"
        using first False unfolding first_def
        by (auto simp: r_def sm_def main_negotiate_def Let_def split: if_splits)
      with i show thesis by (rule that(2))
    next
      case True
      note agreed = this
      show thesis
      proof (cases "IsFwCompatibleWithHost e fw \<or> force_version args")
        case False
        then have "r = \<lparr>trace = sm # pa, exit_code = Some FAILURE_MAIN\<rparr>"
          using first agreed unfolding first_def
          by (auto simp: r_def sm_def pa_def main_negotiate_def Let_def split: if_splits)
        with False show thesis using that(3)[OF pa_def] by blast
      next
        case True
        note gate = this
        define second where
          "second = (if \<not> dbc \<and> \<not> auto_approve args then UserApproval in2
                     else Some (dbc \<or> auto_approve args, in2))"
        show thesis
        proof (cases second)
          case None
          then have q: "\<not> dbc" "\<not> auto_approve args"
            by (auto simp: second_def split: if_splits)
          have "r = \<lparr>trace = sm # pa, exit_code = None\<rparr>"
            using first agreed gate None unfolding first_def second_def
            by (auto simp: r_def sm_def pa_def main_negotiate_def Let_def dbc split: if_splits)
          with q gate show thesis using that(4)[OF pa_def] by (simp add: dbc_def)
        next
          case (Some b)
          then obtain u in3 where second: "second = Some (u, in3)"
            by (cases b) auto
          define ca where
            "ca = (if recognition_version (metadata d) \<noteq> rv \<and> \<not> auto_approve args
                   then [Ev_ClearDatabaseAnswer u] else [])"
          define ms where "ms = (if u then names else filter (\<lambda>m. m \<noteq> RECOG) names)"
          define st where
            "st = \<lparr>settings_port = serialPort (config d),
                  settings_force_full = force_full args\<rparr>"
          have u: "\<not> u \<longrightarrow> recognition_version (metadata d) \<noteq> rv \<and> \<not> auto_approve args"
            using second by (auto simp: second_def dbc_def split: if_splits)
          have "r = \<lparr>trace = sm # pa @ ca @ [Ev_UpdateModules st (fw_file args) ms],
            exit_code = Some (if UpdateModules e st (fw_file args) ms = Ok
                              then SUCCESS_MAIN else FAILURE_MAIN)\<rparr>"
            using first agreed gate second unfolding first_def second_def
            by (auto simp: r_def sm_def pa_def ca_def ms_def st_def main_negotiate_def Let_def
                dbc main_flash_eq after_def dbc_def split: if_splits)
          then show thesis using that(5)[OF pa_def gate ca_def u ms_def st_def] by blast
        qed
      qed
    qed
  qed
qed


text \<open>The three ways through the validation.\<close>

lemma main_validate_cases [case_names invalid_file no_encryption negotiated]:
  fixes e args d in1
  defines "r \<equiv> main_validate e args d in1"
  obtains
    "ExtractFwInformation e (fw_file args) = None"
    "r = \<lparr>trace = [Ev_ExtractFwInformation (fw_file args)], exit_code = Some FAILURE_MAIN\<rparr>"
  | fw rv names where "ExtractFwInformation e (fw_file args) = Some (fw, rv, names)"
    "\<not> IsEncryptionSupported e (fw_file args) (serial_number (metadata d))"
    "r = \<lparr>trace = [Ev_ExtractFwInformation (fw_file args),
                    Ev_IsEncryptionSupported (fw_file args) (serial_number (metadata d))],
          exit_code = Some FAILURE_MAIN\<rparr>"
  | fw rv names where "ExtractFwInformation e (fw_file args) = Some (fw, rv, names)"
    "IsEncryptionSupported e (fw_file args) (serial_number (metadata d))"
    "r = after [Ev_ExtractFwInformation (fw_file args),
                Ev_IsEncryptionSupported (fw_file args) (serial_number (metadata d))]
           (main_negotiate e args d fw rv names in1)"
proof (cases "ExtractFwInformation e (fw_file args)")
  case None
  then show thesis using that(1) by (simp add: r_def main_validate_def Let_def)
next
  case (Some a)
  then obtain fw rv names where
    x: "ExtractFwInformation e (fw_file args) = Some (fw, rv, names)"
    by (cases a) auto
  show thesis
  proof (cases "IsEncryptionSupported e (fw_file args) (serial_number (metadata d))")
    case True
    with x show thesis using that(3) by (simp add: r_def main_validate_def Let_def)
  next
    case False
    with x show thesis using that(2) by (simp add: r_def main_validate_def Let_def)
  qed
qed

text \<open>
  The four ways through the first part: invalid arguments, no device, no device selected
  by the user, or a selected device; up to there all events are discovery events.
\<close>

lemma main_start_cases [case_names invalid_args no_devices no_selection selected]:
  fixes e
  defines "args \<equiv> ParseCommandLineArgs (argv e)"
  obtains
    "\<not> is_valid args" "main e = \<lparr>trace = [], exit_code = Some FAILURE_MAIN\<rparr>"
  | "is_valid args" "serial_port args = []" "DiscoverDevices e = []"
    "main e = \<lparr>trace = [Ev_DiscoverDevices], exit_code = Some FAILURE_MAIN\<rparr>"
  | t where "is_valid args" "list_all is_discovery_event t"
    "main e = \<lparr>trace = t, exit_code = None\<rparr>"
    "serial_port args = []" "1 < length (DiscoverDevices e)"
  | t d in1 where "is_valid args" "list_all is_discovery_event t"
    "main e = after t (main_validate e args d in1)"
    "serial_port args \<noteq> [] \<or> length (DiscoverDevices e) = 1 \<longrightarrow> in1 = stdin e"
proof (cases "is_valid args")
  case False
  then show thesis using that(1) by (simp add: args_def main_def)
next
  case valid: True
  define t where "t = (if serial_port args = []
                 then Ev_DiscoverDevices # map Ev_QueryDeviceMetadata (DiscoverDevices e)
                 else [Ev_QueryDeviceMetadata (serial_port args)])"
  have t: "list_all is_discovery_event t"
    by (simp add: t_def list_all_iff)
  define devices_info where "devices_info = (if serial_port args = []
               then map (\<lambda>detected_device.
                          \<lparr>metadata = QueryDeviceMetadata e detected_device,
                           config = \<lparr>serialPort = detected_device\<rparr>\<rparr>) (DiscoverDevices e)
               else [\<lparr>metadata = QueryDeviceMetadata e (serial_port args),
                      config = \<lparr>serialPort = serial_port args\<rparr>\<rparr>])"
  define sel where "sel = (if length devices_info = 1 then Some (0, stdin e)
                else UserDeviceSelection (length devices_info) (stdin e))"
  have m: "main e =
        (if devices_info = [] then \<lparr>trace = t, exit_code = Some FAILURE_MAIN\<rparr>
        else
          case sel of
            None \<Rightarrow> \<lparr>trace = t, exit_code = None\<rparr>
          | Some (device_id, in1) \<Rightarrow>
              after t (main_validate e args (devices_info ! nat device_id) in1))"
    using valid unfolding main_def args_def t_def devices_info_def sel_def Let_def by simp
  show thesis
  proof (cases "devices_info = []")
    case True
    then have "serial_port args = []" "DiscoverDevices e = []"
      by (auto simp: devices_info_def split: if_splits)
    moreover from this True
    have "main e = \<lparr>trace = [Ev_DiscoverDevices], exit_code = Some FAILURE_MAIN\<rparr>"
      by (simp add: m t_def)
    ultimately show thesis using that(2) valid by simp
  next
    case False
    show thesis
    proof (cases sel)
      case None
      with False have "main e = \<lparr>trace = t, exit_code = None\<rparr>" by (simp add: m)
      moreover from None False have "serial_port args = []" "1 < length (DiscoverDevices e)"
        by (auto simp: sel_def devices_info_def neq_Nil_conv split: if_splits)
      ultimately show thesis using that(3) valid t by simp
    next
      case (Some a)
      then obtain device_id in1 where "sel = Some (device_id, in1)"
        by (cases a) auto
      note sel = this
      with False
      have "main e = after t (main_validate e args (devices_info ! nat device_id) in1)"
        by (simp add: m)
      moreover from sel
      have "serial_port args \<noteq> [] \<or> length (DiscoverDevices e) = 1 \<longrightarrow> in1 = stdin e"
        by (auto simp: sel_def devices_info_def split: if_splits)
      ultimately show thesis using that(4) valid t by simp
    qed
  qed
qed


text \<open>
  The ten paths through \<^verbatim>\<open>main\<close>, each with its events and its exit code. Every
  property of a run below is read off this list.
\<close>

lemma main_cases [case_names invalid_args no_devices no_selection invalid_file no_encryption
    proceed_unanswered declined incompatible clear_unanswered flashed]:
  fixes e
  defines "args \<equiv> ParseCommandLineArgs (argv e)"
  obtains
    "\<not> is_valid args" "main e = \<lparr>trace = [], exit_code = Some FAILURE_MAIN\<rparr>"
  | "is_valid args" "serial_port args = []" "DiscoverDevices e = []"
    "main e = \<lparr>trace = [Ev_DiscoverDevices], exit_code = Some FAILURE_MAIN\<rparr>"
  | t where "is_valid args" "list_all is_discovery_event t"
    "main e = \<lparr>trace = t, exit_code = None\<rparr>"
    "serial_port args = []" "1 < length (DiscoverDevices e)"
  | t where "is_valid args" "list_all is_discovery_event t"
    "ExtractFwInformation e (fw_file args) = None"
    "main e = \<lparr>trace = t @ [Ev_ExtractFwInformation (fw_file args)],
               exit_code = Some FAILURE_MAIN\<rparr>"
  | t and d :: FullDeviceInfo and fw rv names where "is_valid args" "list_all is_discovery_event t"
    "ExtractFwInformation e (fw_file args) = Some (fw, rv, names)"
    "\<not> IsEncryptionSupported e (fw_file args) (serial_number (metadata d))"
    "main e = \<lparr>trace = t @ [Ev_ExtractFwInformation (fw_file args),
                    Ev_IsEncryptionSupported (fw_file args) (serial_number (metadata d))],
               exit_code = Some FAILURE_MAIN\<rparr>"
  | t and d :: FullDeviceInfo and fw rv names where "is_valid args" "list_all is_discovery_event t"
    "ExtractFwInformation e (fw_file args) = Some (fw, rv, names)"
    "IsEncryptionSupported e (fw_file args) (serial_number (metadata d))"
    "is_interactive args"
    "main e = \<lparr>trace = t @ [Ev_ExtractFwInformation (fw_file args),
                    Ev_IsEncryptionSupported (fw_file args) (serial_number (metadata d)),
                    Ev_Summary d (IsFwCompatibleWithHost e (fw_version (metadata d)))
                      (IsFwCompatibleWithHost e fw) fw rv],
               exit_code = None\<rparr>"
    "serial_port args \<noteq> [] \<or> length (DiscoverDevices e) = 1 \<longrightarrow>
       CHR ''y'' \<notin> set (stdin e) \<and> CHR ''n'' \<notin> set (stdin e)"
  | t and d :: FullDeviceInfo and fw rv names where "is_valid args" "list_all is_discovery_event t"
    "ExtractFwInformation e (fw_file args) = Some (fw, rv, names)"
    "IsEncryptionSupported e (fw_file args) (serial_number (metadata d))"
    "is_interactive args"
    "main e = \<lparr>trace = t @ [Ev_ExtractFwInformation (fw_file args),
                    Ev_IsEncryptionSupported (fw_file args) (serial_number (metadata d)),
                    Ev_Summary d (IsFwCompatibleWithHost e (fw_version (metadata d)))
                      (IsFwCompatibleWithHost e fw) fw rv,
                    Ev_ProceedAnswer False],
               exit_code = Some FAILURE_MAIN\<rparr>"
  | t and d :: FullDeviceInfo and fw rv names pa where "is_valid args" "list_all is_discovery_event t"
    "ExtractFwInformation e (fw_file args) = Some (fw, rv, names)"
    "IsEncryptionSupported e (fw_file args) (serial_number (metadata d))"
    "pa = (if is_interactive args then [Ev_ProceedAnswer True] else [])"
    "\<not> IsFwCompatibleWithHost e fw" "\<not> force_version args"
    "main e = \<lparr>trace = t @ [Ev_ExtractFwInformation (fw_file args),
                    Ev_IsEncryptionSupported (fw_file args) (serial_number (metadata d)),
                    Ev_Summary d (IsFwCompatibleWithHost e (fw_version (metadata d)))
                      (IsFwCompatibleWithHost e fw) fw rv] @ pa,
               exit_code = Some FAILURE_MAIN\<rparr>"
  | t and d :: FullDeviceInfo and fw rv names pa where "is_valid args" "list_all is_discovery_event t"
    "ExtractFwInformation e (fw_file args) = Some (fw, rv, names)"
    "IsEncryptionSupported e (fw_file args) (serial_number (metadata d))"
    "pa = (if is_interactive args then [Ev_ProceedAnswer True] else [])"
    "IsFwCompatibleWithHost e fw \<or> force_version args"
    "recognition_version (metadata d) \<noteq> rv" "\<not> auto_approve args"
    "main e = \<lparr>trace = t @ [Ev_ExtractFwInformation (fw_file args),
                    Ev_IsEncryptionSupported (fw_file args) (serial_number (metadata d)),
                    Ev_Summary d (IsFwCompatibleWithHost e (fw_version (metadata d)))
                      (IsFwCompatibleWithHost e fw) fw rv] @ pa,
               exit_code = None\<rparr>"
  | t and d :: FullDeviceInfo and fw rv names pa ca u ms st where "is_valid args" "list_all is_discovery_event t"
    "ExtractFwInformation e (fw_file args) = Some (fw, rv, names)"
    "IsEncryptionSupported e (fw_file args) (serial_number (metadata d))"
    "pa = (if is_interactive args then [Ev_ProceedAnswer True] else [])"
    "IsFwCompatibleWithHost e fw \<or> force_version args"
    "ca = (if recognition_version (metadata d) \<noteq> rv \<and> \<not> auto_approve args
           then [Ev_ClearDatabaseAnswer u] else [])"
    "\<not> u \<longrightarrow> recognition_version (metadata d) \<noteq> rv \<and> \<not> auto_approve args"
    "ms = (if u then names else filter (\<lambda>m. m \<noteq> RECOG) names)"
    "st = \<lparr>settings_port = serialPort (config d), settings_force_full = force_full args\<rparr>"
    "main e = \<lparr>trace = t @ [Ev_ExtractFwInformation (fw_file args),
                    Ev_IsEncryptionSupported (fw_file args) (serial_number (metadata d)),
                    Ev_Summary d (IsFwCompatibleWithHost e (fw_version (metadata d)))
                      (IsFwCompatibleWithHost e fw) fw rv] @ pa @ ca @
                    [Ev_UpdateModules st (fw_file args) ms],
               exit_code = Some (if UpdateModules e st (fw_file args) ms = Ok
                                 then SUCCESS_MAIN else FAILURE_MAIN)\<rparr>"
proof (cases rule: main_start_cases[of e])
  case invalid_args
  then show thesis using that(1) by (simp add: args_def)
next
  case no_devices
  then show thesis using that(2) by (simp add: args_def)
next
  case (no_selection t)
  then show thesis using that(3) by (simp add: args_def)
next
  case (selected t d in1)
  note sel = this
  show thesis
  proof (cases rule: main_validate_cases[where e=e and args=args and d=d and ?in1.0=in1])
    case invalid_file
    with sel show thesis
      using that(4)[where t=t]
      by (simp add: args_def)
  next
    case (no_encryption fw rv names)
    with sel show thesis
      using that(5)[where t=t and d=d and fw=fw and rv=rv and names=names]
      by (simp add: args_def)
  next
    case (negotiated fw rv names)
    note neg = this
    show thesis
    proof (cases rule: main_negotiate_cases[where e=e and args=args and d=d and fw=fw and rv=rv and names=names and ?in1.0=in1])
      case proceed_unanswered
      from sel(4) proceed_unanswered(3)
      have "serial_port args \<noteq> [] \<or> length (DiscoverDevices e) = 1 \<longrightarrow>
              CHR ''y'' \<notin> set (stdin e) \<and> CHR ''n'' \<notin> set (stdin e)"
        by (auto simp: UserApproval_None_iff args_def)
      with sel neg proceed_unanswered show thesis
        using that(6)[where t=t and d=d and fw=fw and rv=rv and names=names]
        by (simp add: args_def)
    next
      case declined
      with sel neg show thesis
        using that(7)[where t=t and d=d and fw=fw and rv=rv and names=names]
        by (simp add: args_def)
    next
      case (incompatible pa)
      with sel neg show thesis
        using that(8)[where t=t and d=d and fw=fw and rv=rv and names=names
             and pa=pa]
        by (simp add: args_def)
    next
      case (clear_unanswered pa)
      with sel neg show thesis
        using that(9)[where t=t and d=d and fw=fw and rv=rv and names=names
             and pa=pa]
        by (simp add: args_def)
    next
      case (flashed pa ca u ms st)
      with sel neg show thesis
        using that(10)[where t=t and d=d and fw=fw and rv=rv and names=names
             and pa=pa and ca=ca and u=u and ms=ms and st=st]
        by (simp add: args_def)
    qed
  qed
qed

subsection \<open>The run that reaches UpdateModules\<close>

lemma discovery_not_update:
  "list_all is_discovery_event t \<Longrightarrow> Ev_UpdateModules st p ms \<notin> set t"
  by (auto simp: list_all_iff)

text \<open>
  \<^verbatim>\<open>UpdateModules\<close> is called on one path only, as the last event; everything before
  it is known.
\<close>

lemma main_update_event:
  assumes "Ev_UpdateModules settings bin_path ms \<in> set (trace (main e))"
  obtains pre and d :: FullDeviceInfo and fw rv names u where
    "trace (main e) = pre @ [Ev_UpdateModules settings bin_path ms]"
    "\<not> (\<exists>st p m. Ev_UpdateModules st p m \<in> set pre)"
    "bin_path = fw_file (ParseCommandLineArgs (argv e))"
    "Ev_ExtractFwInformation bin_path \<in> set pre"
    "ExtractFwInformation e bin_path = Some (fw, rv, names)"
    "Ev_IsEncryptionSupported bin_path (serial_number (metadata d)) \<in> set pre"
    "IsEncryptionSupported e bin_path (serial_number (metadata d))"
    "IsFwCompatibleWithHost e fw \<or> force_version (ParseCommandLineArgs (argv e))"
    "ms = (if u then names else filter (\<lambda>m. m \<noteq> RECOG) names)"
    "exit_code (main e) =
       Some (if UpdateModules e settings bin_path ms = Ok then SUCCESS_MAIN else FAILURE_MAIN)"
proof (cases rule: main_cases[of e])
  case (flashed t d fw rv names pa ca u ms' st)
  let ?pre = "t @ [Ev_ExtractFwInformation (fw_file (ParseCommandLineArgs (argv e))),
                   Ev_IsEncryptionSupported (fw_file (ParseCommandLineArgs (argv e)))
                     (serial_number (metadata d)),
                   Ev_Summary d (IsFwCompatibleWithHost e (fw_version (metadata d)))
                     (IsFwCompatibleWithHost e fw) fw rv] @ pa @ ca"
  have quiet: "\<not> (\<exists>st p m. Ev_UpdateModules st p m \<in> set ?pre)"
    using flashed(2,5,7) by (auto simp: list_all_iff split: if_splits)
  have tr: "trace (main e) =
              ?pre @ [Ev_UpdateModules st (fw_file (ParseCommandLineArgs (argv e))) ms']"
    using flashed(11) by simp
  with assms quiet
  have eq: "settings = st" "bin_path = fw_file (ParseCommandLineArgs (argv e))" "ms = ms'"
    by auto
  show thesis
  proof (rule that[of ?pre fw rv names d u])
    show "trace (main e) = ?pre @ [Ev_UpdateModules settings bin_path ms]"
      using tr eq by simp
    show "\<not> (\<exists>st p m. Ev_UpdateModules st p m \<in> set ?pre)"
      by (rule quiet)
    show "bin_path = fw_file (ParseCommandLineArgs (argv e))"
      by (rule eq(2))
    show "Ev_ExtractFwInformation bin_path \<in> set ?pre"
      using eq by simp
    show "ExtractFwInformation e bin_path = Some (fw, rv, names)"
      using flashed(3) eq by simp
    show "Ev_IsEncryptionSupported bin_path (serial_number (metadata d)) \<in> set ?pre"
      using eq by simp
    show "IsEncryptionSupported e bin_path (serial_number (metadata d))"
      using flashed(4) eq by simp
    show "IsFwCompatibleWithHost e fw \<or> force_version (ParseCommandLineArgs (argv e))"
      by (rule flashed(6))
    show "ms = (if u then names else filter (\<lambda>m. m \<noteq> RECOG) names)"
      using flashed(9) eq by simp
    show "exit_code (main e) =
       Some (if UpdateModules e settings bin_path ms = Ok then SUCCESS_MAIN else FAILURE_MAIN)"
      using flashed(11) eq by simp
  qed
qed (use assms in \<open>auto simp: list_all_iff split: if_splits\<close>)



subsection \<open>The failures before the transfer\<close>







subsection \<open>No transfer before the checks have passed\<close>




subsection \<open>The exit code\<close>




subsection \<open>The modules that are flashed\<close>

text \<open>
  C6: when the user declines to clear the faceprints database, which is asked only when
  the recognition versions differ and \<^verbatim>\<open>--auto-approve\<close> was not given (so in every
  interactive run with differing versions), the next and last event is the call of
  \<^verbatim>\<open>UpdateModules\<close> with the module names of the image from which every entry equal to
  \<^verbatim>\<open>RECOG\<close> is removed; \<open>filter\<close> keeps all other names, in their order.
\<close>

theorem RECOG_removed_when_declined:
  assumes "Ev_ClearDatabaseAnswer False \<in> set (trace (main e))"
  shows "\<exists>pre d cc nc fw rv names st.
           trace (main e) =
             pre @ [Ev_ClearDatabaseAnswer False,
                    Ev_UpdateModules st (fw_file (ParseCommandLineArgs (argv e)))
                      (filter (\<lambda>moduleName. moduleName \<noteq> RECOG) names)] \<and>
           \<not> (\<exists>st p m. Ev_UpdateModules st p m \<in> set pre) \<and>
           ExtractFwInformation e (fw_file (ParseCommandLineArgs (argv e))) =
             Some (fw, rv, names) \<and>
           Ev_Summary d cc nc fw rv \<in> set pre \<and>
           recognition_version (metadata d) \<noteq> rv \<and>
           \<not> auto_approve (ParseCommandLineArgs (argv e))"
proof (cases rule: main_cases[of e])
  case (flashed t d fw rv names pa ca u ms st)
  let ?pre = "t @ [Ev_ExtractFwInformation (fw_file (ParseCommandLineArgs (argv e))),
                   Ev_IsEncryptionSupported (fw_file (ParseCommandLineArgs (argv e)))
                     (serial_number (metadata d)),
                   Ev_Summary d (IsFwCompatibleWithHost e (fw_version (metadata d)))
                     (IsFwCompatibleWithHost e fw) fw rv] @ pa"
  from assms flashed(2,5,11) have "Ev_ClearDatabaseAnswer False \<in> set ca"
    by (auto simp: list_all_iff split: if_splits)
  with flashed(7) have ca: "ca = [Ev_ClearDatabaseAnswer False]" and u: "\<not> u"
    and differ: "recognition_version (metadata d) \<noteq> rv"
    and manual: "\<not> auto_approve (ParseCommandLineArgs (argv e))"
    by (auto split: if_splits)
  have "trace (main e) =
          ?pre @ [Ev_ClearDatabaseAnswer False,
                  Ev_UpdateModules st (fw_file (ParseCommandLineArgs (argv e)))
                    (filter (\<lambda>moduleName. moduleName \<noteq> RECOG) names)]"
    using flashed(9,11) ca u by simp
  moreover have "\<not> (\<exists>st p m. Ev_UpdateModules st p m \<in> set ?pre)"
    using flashed(2,5) by (auto simp: list_all_iff split: if_splits)
  moreover have "Ev_Summary d (IsFwCompatibleWithHost e (fw_version (metadata d)))
                   (IsFwCompatibleWithHost e fw) fw rv \<in> set ?pre"
    by simp
  ultimately show ?thesis
    using flashed(3) differ manual by blast
qed (use assms in \<open>auto simp: list_all_iff split: if_splits\<close>)

text \<open>
  Scenario B of the specification: the versions differ, the run is interactive, the user
  agrees to proceed and declines to clear the database; only OPFW is flashed.
\<close>

theorem RECOG_removed_when_declined_witness:
  "is_interactive (ParseCommandLineArgs (argv env_interactive)) \<and>
   Ev_ClearDatabaseAnswer False \<in> set (trace (main env_interactive)) \<and>
   (\<exists>pre d cc nc fw rv names st.
      trace (main env_interactive) =
        pre @ [Ev_ClearDatabaseAnswer False,
               Ev_UpdateModules st (fw_file (ParseCommandLineArgs (argv env_interactive)))
                 (filter (\<lambda>moduleName. moduleName \<noteq> RECOG) names)] \<and>
      \<not> (\<exists>st p m. Ev_UpdateModules st p m \<in> set pre) \<and>
      ExtractFwInformation env_interactive (fw_file (ParseCommandLineArgs (argv env_interactive))) =
        Some (fw, rv, names) \<and>
      Ev_Summary d cc nc fw rv \<in> set pre \<and>
      recognition_version (metadata d) \<noteq> rv \<and>
      \<not> auto_approve (ParseCommandLineArgs (argv env_interactive))) \<and>
   last (trace (main env_interactive)) =
     Ev_UpdateModules \<lparr>settings_port = ''COM3'', settings_force_full = False\<rparr> ''fw.bin''
       [''OPFW'']"
proof -
  have a: "Ev_ClearDatabaseAnswer False \<in> set (trace (main env_interactive))"
    by code_simp
  have b: "is_interactive (ParseCommandLineArgs (argv env_interactive))"
    by code_simp
  have c: "last (trace (main env_interactive)) =
     Ev_UpdateModules \<lparr>settings_port = ''COM3'', settings_force_full = False\<rparr> ''fw.bin''
       [''OPFW'']"
    by code_simp
  from RECOG_removed_when_declined[OF a] a b c show ?thesis
    by blast
qed

text \<open>
  C7: in every run, the list of module names passed to \<^verbatim>\<open>UpdateModules\<close> is a
  subsequence, and so a subset, of the module names that \<^verbatim>\<open>ExtractFwInformation\<close>
  returned for the same file: names are only removed, never added.
\<close>

theorem UpdateModules_names_subseq:
  assumes "Ev_UpdateModules settings bin_path ms \<in> set (trace (main e))"
  shows "\<exists>fw rv names.
           ExtractFwInformation e bin_path = Some (fw, rv, names) \<and>
           subseq ms names \<and> set ms \<subseteq> set names"
proof -
  from assms obtain fw rv names u where
    "ExtractFwInformation e bin_path = Some (fw, rv, names)"
    "ms = (if u then names else filter (\<lambda>m. m \<noteq> RECOG) names)"
    by (rule main_update_event)
  then show ?thesis
    by auto
qed

text \<open>In scenario B the plan \<^verbatim>\<open>[OPFW]\<close> is a subsequence of the modules of the image.\<close>

theorem UpdateModules_names_subseq_witness:
  "Ev_UpdateModules \<lparr>settings_port = ''COM3'', settings_force_full = False\<rparr> ''fw.bin''
     [''OPFW''] \<in> set (trace (main env_interactive)) \<and>
   (\<exists>fw rv names.
      ExtractFwInformation env_interactive ''fw.bin'' = Some (fw, rv, names) \<and>
      subseq [''OPFW''] names \<and> set [''OPFW''] \<subseteq> set names)"
proof -
  have a: "Ev_UpdateModules \<lparr>settings_port = ''COM3'', settings_force_full = False\<rparr> ''fw.bin''
     [''OPFW''] \<in> set (trace (main env_interactive))"
    by code_simp
  from UpdateModules_names_subseq[OF a] a show ?thesis
    by blast
qed

end
